theory Spec2Isabelle
  imports Complex_Main "HOL-Library.Sublist"
begin

section \<open>TeleGuard: the capture-and-sync pipeline of bot.py\<close>

text \<open>
  A shallow embedding of the offline-first pipeline of \<^verbatim>\<open>src/src/bot.py\<close>:
  \<^verbatim>\<open>StorageManager\<close> (the pending files of the capture directory),
  \<^verbatim>\<open>NetworkManager\<close> (the three location strategies and their fusion),
  \<^verbatim>\<open>WebcamCapture.startup_capture\<close> (the capture burst) and
  \<^verbatim>\<open>send_pending_files\<close> (the drain).
  Coordinates are Python floats in the source; they are modelled as reals, since the code
  only compares them with \<open>0\<close>, \<open>90\<close> and \<open>180\<close>. The floats that are
  not numbers (\<^verbatim>\<open>nan\<close>, \<^verbatim>\<open>inf\<close>) are left out.
\<close>

subsection \<open>Exceptions\<close>

datatype exn =
    FileNotFoundError
  | JSONDecodeError
  | ValueError
  | SubprocessError
  | RequestException
  | KeyError
  | TelegramError

subsection \<open>The location dictionary\<close>

text \<open>
  The dictionary built by \<^verbatim>\<open>get_location\<close> and written to
  \<^verbatim>\<open>location_<timestamp>.json\<close>. A key that \<^verbatim>\<open>dict.get\<close> does not
  find is \<open>None\<close>.
\<close>

record location =
  ip :: string
  country :: string
  city :: string
  region :: string
  isp :: string
  timezone :: string
  lat :: "real option"
  lon :: "real option"
  accuracy :: "real option"
  source :: string

subsection \<open>The capture directory\<close>

text \<open>
  What a file of the capture directory holds: the bytes of an image, a JSON document that
  \<^verbatim>\<open>json.load\<close> reads back as a location dictionary, or bytes that are not JSON.
\<close>

datatype file_data = Jpeg string | Json location | Garbled

text \<open>
  The capture directory: its entries in the order in which the operating system
  enumerates them, each with its contents.
\<close>

type_synonym store = "(string \<times> file_data) list"

definition names :: "store \<Rightarrow> string list" where
  "names st = map fst st"

definition open_file :: "store \<Rightarrow> string \<Rightarrow> exn + file_data" where
  "open_file st p = (case map_of st p of None \<Rightarrow> Inl FileNotFoundError | Some d \<Rightarrow> Inr d)"

definition write_file :: "store \<Rightarrow> string \<Rightarrow> file_data \<Rightarrow> store" where
  \<comment> \<open>\<^verbatim>\<open>open(p, 'w')\<close>: an existing file is overwritten, a new one is created.\<close>
  "write_file st p d =
     (if p \<in> set (names st) then map (\<lambda>(q, e). if q = p then (q, d) else (q, e)) st
      else st @ [(p, d)])"

definition os_remove :: "store \<Rightarrow> string \<Rightarrow> exn + store" where
  "os_remove st p =
     (if p \<in> set (names st) then Inr (filter (\<lambda>(q, e). q \<noteq> p) st)
      else Inl FileNotFoundError)"

text \<open>
  \<^verbatim>\<open>StorageManager.delete_file\<close> (bot.py:251-256): \<^verbatim>\<open>os.remove\<close> inside
  \<^verbatim>\<open>try\<close>; the handler logs a warning and returns. The result is the store after the
  call, or the exception that leaves the function.
\<close>

definition delete_file :: "store \<Rightarrow> string \<Rightarrow> exn + store" where
  "delete_file st p = (case os_remove st p of Inl e \<Rightarrow> Inr st | Inr st' \<Rightarrow> Inr st')"

definition after_delete :: "store \<Rightarrow> string \<Rightarrow> store" where
  "after_delete st p = (case delete_file st p of Inl e \<Rightarrow> st | Inr st' \<Rightarrow> st')"

subsection \<open>The location strategies\<close>

text \<open>
  What a precise strategy returns: the dictionary with the keys \<^verbatim>\<open>lat\<close>,
  \<^verbatim>\<open>lon\<close>, \<^verbatim>\<open>accuracy\<close> and \<^verbatim>\<open>source\<close>.
\<close>

record precise =
  p_lat :: real
  p_lon :: real
  p_accuracy :: real
  p_source :: string

text \<open>
  The outcome of the PowerShell subprocess of \<^verbatim>\<open>get_windows_location\<close>: the call
  raises (a timeout, no PowerShell), or it prints. \<open>PsStdout parts\<close> holds the fields of
  \<^verbatim>\<open>result.stdout.strip().split(',')\<close>, each as \<^verbatim>\<open>float\<close> reads it
  (\<open>None\<close> where \<^verbatim>\<open>float\<close> raises \<^verbatim>\<open>ValueError\<close>); the empty list is an
  empty standard output.
\<close>

datatype ps_result = PsRaised | PsStdout "real option list"

definition py_float :: "real option \<Rightarrow> exn + real" where
  "py_float f = (case f of None \<Rightarrow> Inl ValueError | Some v \<Rightarrow> Inr v)"

text \<open>
  bot.py:308-325, the body of the inner \<^verbatim>\<open>try\<close>: the three conversions in the
  order of the source, then the validation of line 316.
\<close>

definition windows_fix :: "real option list \<Rightarrow> exn + precise option" where
  "windows_fix parts =
     (case py_float (parts ! 0) of
        Inl e \<Rightarrow> Inl e
      | Inr la \<Rightarrow>
         (case py_float (parts ! 1) of
            Inl e \<Rightarrow> Inl e
          | Inr lo \<Rightarrow>
             (case (if length parts > 2 then py_float (parts ! 2) else Inr 0) of
                Inl e \<Rightarrow> Inl e
              | Inr acc \<Rightarrow>
                 (if la \<noteq> 0 \<and> lo \<noteq> 0 \<and> \<bar>la\<bar> \<le> 90 \<and> \<bar>lo\<bar> \<le> 180
                  then Inr (Some \<lparr>p_lat = la, p_lon = lo, p_accuracy = acc,
                                   p_source = ''GPS/Wi-Fi (Precise)''\<rparr>)
                  else Inr None))))"

definition get_windows_location :: "ps_result \<Rightarrow> precise option" where
  "get_windows_location r =
     (case r of
        PsRaised \<Rightarrow> None
      | PsStdout parts \<Rightarrow>
          if parts \<noteq> [] \<and> length parts \<ge> 2
          then (case windows_fix parts of Inl e \<Rightarrow> None | Inr v \<Rightarrow> v)
          else None)"

text \<open>
  The outcome of \<^verbatim>\<open>netsh wlan show networks\<close>: the call raises, prints nothing, or
  prints a listing from which the loop of bot.py:352-376 collects \<open>n\<close> access points.
\<close>

datatype netsh_result = NetshRaised | NetshEmpty | NetshNetworks nat

text \<open>
  The reply of the geolocation service, as bot.py:390-395 reads it: the coordinates under
  \<^verbatim>\<open>location\<close>, when that key is there, and the optional \<^verbatim>\<open>accuracy\<close>.
  \<open>GeoRaised\<close> is a request that raises, a body that is not JSON, or a
  \<^verbatim>\<open>location\<close> without \<^verbatim>\<open>lat\<close> or \<^verbatim>\<open>lng\<close>.
\<close>

record geo_body =
  g_location :: "(real \<times> real) option"
  g_accuracy :: "real option"

datatype geo_result = GeoRaised | GeoReply nat geo_body

definition get_wifi_location :: "netsh_result \<Rightarrow> geo_result \<Rightarrow> precise option" where
  "get_wifi_location ns geo =
     (case ns of
        NetshRaised \<Rightarrow> None
      | NetshEmpty \<Rightarrow> None
      | NetshNetworks n \<Rightarrow>
          if n \<ge> 2 then
            (case geo of
               GeoRaised \<Rightarrow> None
             | GeoReply code body \<Rightarrow>
                 if code = 200 then
                   (case g_location body of
                      None \<Rightarrow> None
                    | Some (la, lo) \<Rightarrow>
                        Some \<lparr>p_lat = la, p_lon = lo,
                              p_accuracy = (case g_accuracy body of None \<Rightarrow> 100 | Some a \<Rightarrow> a),
                              p_source = ''Wi-Fi Networks (Precise)''\<rparr>)
                 else None)
          else None)"

text \<open>
  The reply of the IP lookup (\<^verbatim>\<open>Config.LOCATION_API\<close>): each field is \<open>None\<close>
  when the key is missing. \<open>IpRaised\<close> is a request that raises or a body that is not
  JSON.
\<close>

record ip_data =
  d_status :: "string option"
  d_query :: "string option"
  d_country :: "string option"
  d_city :: "string option"
  d_regionName :: "string option"
  d_isp :: "string option"
  d_timezone :: "string option"
  d_lat :: "real option"
  d_lon :: "real option"

datatype ip_result = IpRaised | IpReply ip_data

definition get_or :: "'a option \<Rightarrow> 'a \<Rightarrow> 'a" where
  "get_or v d = (case v of None \<Rightarrow> d | Some x \<Rightarrow> x)"

text \<open>bot.py:426-452, the body of the \<^verbatim>\<open>try\<close> of \<^verbatim>\<open>get_location\<close>.\<close>

definition ip_lookup :: "ip_result \<Rightarrow> precise option \<Rightarrow> exn + location option" where
  "ip_lookup r precise_loc =
     (case r of
        IpRaised \<Rightarrow> Inl RequestException
      | IpReply data \<Rightarrow>
          if d_status data = Some ''success'' then
            (let result = \<lparr>ip = get_or (d_query data) ''Unknown'',
                            country = get_or (d_country data) ''Unknown'',
                            city = get_or (d_city data) ''Unknown'',
                            region = get_or (d_regionName data) ''Unknown'',
                            isp = get_or (d_isp data) ''Unknown'',
                            timezone = get_or (d_timezone data) ''Unknown'',
                            lat = None, lon = None, accuracy = None, source = []\<rparr>
             in case precise_loc of
                  Some p \<Rightarrow>
                    Inr (Some (result\<lparr>lat := Some (p_lat p), lon := Some (p_lon p),
                                       accuracy := Some (p_accuracy p), source := p_source p\<rparr>))
                | None \<Rightarrow>
                    Inr (Some (result\<lparr>lat := Some (get_or (d_lat data) 0),
                                       lon := Some (get_or (d_lon data) 0),
                                       source := ''IP Address (Approximate ~1-5km)''\<rparr>)))
          else Inr None)"

text \<open>The external calls a resolution makes, in the order it makes them.\<close>

datatype probe = Windows_API | Wifi_API | IP_API

record env =
  win_out :: ps_result
  netsh_out :: netsh_result
  geo_out :: geo_result
  ip_out :: ip_result

definition precise_only :: "precise \<Rightarrow> location" where
  \<comment> \<open>bot.py:458-470\<close>
  "precise_only p =
     \<lparr>ip = ''Unknown'', country = ''Unknown'', city = ''Unknown'', region = ''Unknown'',
      isp = ''Unknown'', timezone = ''Unknown'',
      lat = Some (p_lat p), lon = Some (p_lon p), accuracy = Some (p_accuracy p),
      source = p_source p\<rparr>"

text \<open>
  \<^verbatim>\<open>NetworkManager.get_location\<close> (bot.py:408-472): the calls made and the value
  returned.
\<close>

definition get_location :: "env \<Rightarrow> probe list \<times> location option" where
  "get_location e =
     (let win_loc = get_windows_location (win_out e);
          (tr, precise_loc) =
             (case win_loc of
                Some p \<Rightarrow> ([Windows_API], Some p)
              | None \<Rightarrow> ([Windows_API, Wifi_API], get_wifi_location (netsh_out e) (geo_out e)))
      in case ip_lookup (ip_out e) precise_loc of
           Inr (Some result) \<Rightarrow> (tr @ [IP_API], Some result)
         | _ \<Rightarrow> (tr @ [IP_API], map_option precise_only precise_loc))"

text \<open>
  Python's truth value of \<^verbatim>\<open>info.get('lat')\<close>: false for a missing key and for
  zero.
\<close>

definition truthy :: "real option \<Rightarrow> bool" where
  "truthy v = (case v of None \<Rightarrow> False | Some x \<Rightarrow> x \<noteq> 0)"

subsection \<open>Pending files\<close>

text \<open>
  The glob patterns \<^verbatim>\<open>*.jpg\<close> and \<^verbatim>\<open>location_*.json\<close>, matched with
  the case of the letters as it is.
\<close>

definition is_jpg :: "string \<Rightarrow> bool" where
  "is_jpg n = suffix ''.jpg'' n"

definition is_location_json :: "string \<Rightarrow> bool" where
  "is_location_json n = (prefix ''location_'' n \<and> suffix ''.json'' n)"

text \<open>\<^verbatim>\<open>StorageManager.get_pending_files\<close> (bot.py:244-249).\<close>

definition get_pending_files :: "store \<Rightarrow> string list" where
  "get_pending_files st =
     (let photos = filter is_jpg (names st);
          locations = filter is_location_json (names st)
      in photos @ locations)"

text \<open>
  \<^verbatim>\<open>Path.suffix\<close>: with \<open>i\<close> the index of the last dot of the name, the suffix is
  \<^verbatim>\<open>name[i:]\<close> when \<open>0 < i < len(name) - 1\<close>, and empty otherwise.
\<close>

definition py_suffix :: "string \<Rightarrow> string" where
  "py_suffix n =
     (let after = takeWhile (\<lambda>c. c \<noteq> CHR ''.'') (rev n);
          i = length n - length after - 1
      in if CHR ''.'' \<in> set n \<and> 0 < i \<and> i < length n - 1 then drop i n else [])"

subsection \<open>The remote sink and the drain\<close>

datatype message = SavedLocation string string string

datatype call =
    SendPhoto int string file_data
  | SendMessage int message
  | SendLocation int real real

text \<open>
  The surroundings of a drain: what \<^verbatim>\<open>check_internet\<close> would answer, and for each
  call of the bot API whether it returns (\<open>True\<close>) or raises.
\<close>

record world =
  online :: bool
  remote :: "call \<Rightarrow> bool"

definition check_internet :: "world \<Rightarrow> bool" where
  "check_internet w = online w"

definition send :: "world \<Rightarrow> call \<Rightarrow> call list \<times> (exn + unit)" where
  "send w c = (if remote w c then ([c], Inr ()) else ([], Inl TelegramError))"

definition json_load :: "file_data \<Rightarrow> exn + location" where
  "json_load d = (case d of Json info \<Rightarrow> Inr info | _ \<Rightarrow> Inl JSONDecodeError)"

text \<open>
  bot.py:834-858, the body of the \<^verbatim>\<open>try\<close> up to the deletion: the calls that
  returned, and whether the body raised.
\<close>

definition deliver :: "int \<Rightarrow> world \<Rightarrow> store \<Rightarrow> string \<Rightarrow> call list \<times> (exn + unit)" where
  "deliver admin w st name =
     (if py_suffix name = ''.jpg'' then
        (case open_file st name of
           Inl e \<Rightarrow> ([], Inl e)
         | Inr d \<Rightarrow> send w (SendPhoto admin name d))
      else if py_suffix name = ''.json'' \<and> sublist ''location'' name then
        (case open_file st name of
           Inl e \<Rightarrow> ([], Inl e)
         | Inr d \<Rightarrow>
            (case json_load d of
               Inl e \<Rightarrow> ([], Inl e)
             | Inr info \<Rightarrow>
                (case send w (SendMessage admin
                               (SavedLocation (ip info) (city info) (country info))) of
                   (s1, Inl e) \<Rightarrow> (s1, Inl e)
                 | (s1, Inr u) \<Rightarrow>
                    if truthy (lat info) \<and> truthy (lon info) then
                      (case (lat info, lon info) of
                         (Some la, Some lo) \<Rightarrow>
                           (case send w (SendLocation admin la lo) of (s2, r) \<Rightarrow> (s1 @ s2, r))
                       | _ \<Rightarrow> (s1, Inl KeyError))
                    else (s1, Inr ()))))
      else ([], Inr ()))"

text \<open>
  The calls that the delivery of a location record consists of (bot.py:846-858): the
  summary, then the coordinates when both are there and differ from zero.
\<close>

definition location_calls :: "int \<Rightarrow> location \<Rightarrow> call list" where
  "location_calls admin info =
     SendMessage admin (SavedLocation (ip info) (city info) (country info)) #
     (case (lat info, lon info) of
        (Some la, Some lo) \<Rightarrow> if la \<noteq> 0 \<and> lo \<noteq> 0 then [SendLocation admin la lo] else []
      | _ \<Rightarrow> [])"

text \<open>One round of the loop of bot.py:832-864: the store and the calls delivered so far.\<close>

definition send_one :: "int \<Rightarrow> world \<Rightarrow> string \<Rightarrow> store \<times> call list \<Rightarrow> store \<times> call list" where
  "send_one admin w name acc =
     (case deliver admin w (fst acc) name of
        (s, Inl e) \<Rightarrow> (fst acc, snd acc @ s)
      | (s, Inr u) \<Rightarrow> (after_delete (fst acc) name, snd acc @ s))"

text \<open>
  \<^verbatim>\<open>send_pending_files\<close> (bot.py:820-864). \<^verbatim>\<open>storage.admin_id\<close> is
  \<^verbatim>\<open>Optional[int]\<close>, false when it is \<^verbatim>\<open>None\<close> or \<open>0\<close>.
\<close>

definition send_pending_files :: "int option \<Rightarrow> world \<Rightarrow> store \<Rightarrow> store \<times> call list" where
  "send_pending_files admin_id w st =
     (case admin_id of
        None \<Rightarrow> (st, [])
      | Some a \<Rightarrow>
          if a = 0 then (st, [])
          else (let files = get_pending_files st
                in if files = [] then (st, [])
                   else fold (send_one a w) files (st, [])))"

text \<open>
  The test of bot.py:740 in \<^verbatim>\<open>handle_location\<close>, on the dictionary that
  \<^verbatim>\<open>get_location\<close> returned: whether the map message is sent.
\<close>

definition handle_location_sends_map :: "location \<Rightarrow> bool" where
  "handle_location_sends_map info = (truthy (lat info) \<and> truthy (lon info))"

subsection \<open>The capture burst\<close>

text \<open>
  One call of \<^verbatim>\<open>WebcamCapture.capture\<close> (bot.py:486-519): the camera does not
  open, the driver raises, no frame is read, or a frame is read; \<open>now\<close> is the timestamp
  \<^verbatim>\<open>datetime.now().strftime("%Y%m%d_%H%M%S")\<close> of that call.
\<close>

datatype cam_result = CamClosed | CamRaised | NoFrame | Frame string

definition is_frame :: "cam_result \<Rightarrow> bool" where
  "is_frame c = (case c of Frame bytes \<Rightarrow> True | _ \<Rightarrow> False)"

record attempt =
  cam :: cam_result
  now :: string

definition capture_name :: "string \<Rightarrow> string" where
  "capture_name ts = ''capture_'' @ ts @ ''.jpg''"

definition location_name :: "string \<Rightarrow> string" where
  "location_name ts = ''location_'' @ ts @ ''.json''"

definition capture :: "attempt \<Rightarrow> store \<Rightarrow> store \<times> string option" where
  "capture a st =
     (case cam a of
        Frame bytes \<Rightarrow> (write_file st (capture_name (now a)) (Jpeg bytes),
                         Some (capture_name (now a)))
      | _ \<Rightarrow> (st, None))"

definition STARTUP_CAPTURES :: nat where
  "STARTUP_CAPTURES = 3"

text \<open>One round of the loop of bot.py:535-545: the store and the counter \<^verbatim>\<open>captured\<close>.\<close>

definition capture_round :: "attempt \<Rightarrow> store \<times> nat \<Rightarrow> store \<times> nat" where
  "capture_round a acc =
     (case capture a (fst acc) of
        (st', Some photo) \<Rightarrow> (st', snd acc + 1)
      | (st', None) \<Rightarrow> (st', snd acc))"

text \<open>
  \<^verbatim>\<open>WebcamCapture.startup_capture\<close> (bot.py:521-559): \<open>att i\<close> is the \<open>i\<close>-th
  attempt, \<open>e\<close> the surroundings of the one resolution, \<open>ts\<close> the timestamp of the
  location file. The result is the store, the counter and the external calls of the
  resolution.
\<close>

definition startup_capture ::
  "(nat \<Rightarrow> attempt) \<Rightarrow> env \<Rightarrow> string \<Rightarrow> store \<Rightarrow> store \<times> nat \<times> probe list" where
  "startup_capture att e ts st =
     (let (st1, captured) = fold capture_round (map att [0..<STARTUP_CAPTURES]) (st, 0);
          (tr, loc) = get_location e
      in case loc of
           Some info \<Rightarrow> (write_file st1 (location_name ts) (Json info), captured, tr)
         | None \<Rightarrow> (st1, captured, tr))"

subsection \<open>Removal\<close>

lemma after_delete_eq: "after_delete st p = filter (\<lambda>(q, e). q \<noteq> p) st"
proof (cases "p \<in> set (names st)")
  case True
  then show ?thesis by (simp add: after_delete_def delete_file_def os_remove_def)
next
  case False
  then have "\<forall>x \<in> set st. fst x \<noteq> p" by (auto simp: names_def)
  then have "filter (\<lambda>(q, e). q \<noteq> p) st = st"
    by (intro filter_True) auto
  with False show ?thesis by (simp add: after_delete_def delete_file_def os_remove_def)
qed

lemma map_of_after_delete: "q \<noteq> p \<Longrightarrow> map_of (after_delete st p) q = map_of st q"
  unfolding after_delete_eq by (induction st) auto

lemma map_of_after_delete_same: "map_of (after_delete st p) p = None"
  unfolding after_delete_eq by (induction st) auto

text \<open>
  C8. \<^verbatim>\<open>delete_file\<close> never raises; deleting a path that is not in the directory
  leaves the directory as it is, so a second deletion of the same path changes nothing; and
  a deletion changes neither the contents nor the relative order of any other file.
\<close>

theorem delete_file_idempotent:
  "(\<exists>st'. delete_file st p = Inr st')
   \<and> (p \<notin> set (names st) \<longrightarrow> delete_file st p = Inr st)
   \<and> delete_file (after_delete st p) p = Inr (after_delete st p)
   \<and> (\<forall>q. q \<noteq> p \<longrightarrow> map_of (after_delete st p) q = map_of st q)
   \<and> filter (\<lambda>(q, e). q \<noteq> p) (after_delete st p) = filter (\<lambda>(q, e). q \<noteq> p) st"
proof -
  have a: "\<exists>st'. delete_file st p = Inr st'"
    by (simp add: delete_file_def split: sum.splits)
  have b: "p \<notin> set (names st) \<longrightarrow> delete_file st p = Inr st"
    by (simp add: delete_file_def os_remove_def)
  have "p \<notin> set (names (after_delete st p))"
    unfolding after_delete_eq names_def by auto
  then have c: "delete_file (after_delete st p) p = Inr (after_delete st p)"
    by (simp add: delete_file_def os_remove_def)
  have d: "\<forall>q. q \<noteq> p \<longrightarrow> map_of (after_delete st p) q = map_of st q"
    by (simp add: map_of_after_delete)
  have e: "filter (\<lambda>(q, e). q \<noteq> p) (after_delete st p) = filter (\<lambda>(q, e). q \<noteq> p) st"
    unfolding after_delete_eq by simp
  from a b c d e show ?thesis by blast
qed

theorem delete_file_idempotent_witness:
  "''a.jpg'' \<notin> set (names [(''b.jpg'', Garbled)])
   \<and> delete_file [(''b.jpg'', Garbled)] ''a.jpg'' = Inr [(''b.jpg'', Garbled)]
   \<and> ''b.jpg'' \<noteq> ''a.jpg''
   \<and> map_of (after_delete [(''b.jpg'', Garbled)] ''a.jpg'') ''b.jpg'' = Some Garbled"
  using delete_file_idempotent [of "[(''b.jpg'', Garbled)]" "''a.jpg''"]
  by (simp add: names_def)

subsection \<open>File names\<close>

lemma takeWhile_upto: "x \<notin> set xs \<Longrightarrow> takeWhile (\<lambda>c. c \<noteq> x) (xs @ x # ys) = xs"
  by (induction xs) auto

lemma py_suffix_ext:
  assumes "p \<noteq> []" "CHR ''.'' \<notin> set ext" "ext \<noteq> []"
  shows "py_suffix (p @ CHR ''.'' # ext) = CHR ''.'' # ext"
proof -
  have "rev (p @ CHR ''.'' # ext) = rev ext @ CHR ''.'' # rev p" by simp
  moreover have "takeWhile (\<lambda>c. c \<noteq> CHR ''.'') (rev ext @ CHR ''.'' # rev p) = rev ext"
    using assms(2) takeWhile_upto [of "CHR ''.''" "rev ext" "rev p"] by simp
  ultimately have "takeWhile (\<lambda>c. c \<noteq> CHR ''.'') (rev (p @ CHR ''.'' # ext)) = rev ext"
    by simp
  then show ?thesis
    using assms(1,3) unfolding py_suffix_def Let_def by (simp add: Suc_diff_le)
qed

lemma py_suffix_jpg: "is_jpg n \<Longrightarrow> n \<noteq> ''.jpg'' \<Longrightarrow> py_suffix n = ''.jpg''"
proof -
  assume a: "is_jpg n" and b: "n \<noteq> ''.jpg''"
  from a obtain p where n: "n = p @ ''.jpg''" by (auto simp: is_jpg_def suffix_def)
  with b have "p \<noteq> []" by auto
  then show ?thesis using py_suffix_ext [of p "''jpg''"] n by simp
qed

lemma py_suffix_location: "is_location_json n \<Longrightarrow> py_suffix n = ''.json''"
proof -
  assume a: "is_location_json n"
  then obtain p where n: "n = p @ ''.json''" by (auto simp: is_location_json_def suffix_def)
  from a have "prefix ''location_'' n" by (simp add: is_location_json_def)
  with n have "p \<noteq> []" by (auto simp: prefix_def)
  then show ?thesis using py_suffix_ext [of p "''json''"] n by simp
qed

lemma location_in_name: "is_location_json n \<Longrightarrow> sublist ''location'' n"
proof -
  assume "is_location_json n"
  then obtain r where "n = ''location_'' @ r" by (auto simp: is_location_json_def prefix_def)
  then have "n = [] @ ''location'' @ (CHR ''_'' # r)" by simp
  then show ?thesis unfolding sublist_def by blast
qed

lemma is_jpg_capture_name: "is_jpg (capture_name ts)"
  by (simp add: is_jpg_def capture_name_def suffix_def)

lemma is_location_json_location_name: "is_location_json (location_name ts)"
  by (simp add: is_location_json_def location_name_def suffix_def prefix_def)

lemma not_jpg_and_location: "\<not> (is_jpg n \<and> is_location_json n)"
  by (auto simp: is_jpg_def is_location_json_def suffix_def)

subsection \<open>Validation of a candidate fix\<close>








subsection \<open>Delivery of a location record\<close>

lemma deliver_location_file:
  assumes "is_location_json name" "map_of st name = Some (Json info)"
  shows "deliver admin w st name =
     (case send w (SendMessage admin (SavedLocation (ip info) (city info) (country info))) of
        (s1, Inl e) \<Rightarrow> (s1, Inl e)
      | (s1, Inr u) \<Rightarrow>
          if truthy (lat info) \<and> truthy (lon info) then
            (case (lat info, lon info) of
               (Some la, Some lo) \<Rightarrow>
                 (case send w (SendLocation admin la lo) of (s2, r) \<Rightarrow> (s1 @ s2, r))
             | _ \<Rightarrow> (s1, Inl KeyError))
          else (s1, Inr ()))"
  using assms py_suffix_location [OF assms(1)] location_in_name [OF assms(1)]
  by (simp add: deliver_def open_file_def json_load_def)

subsection \<open>The zero pair of the IP lookup\<close>

text \<open>
  C2, as stated, in the scenario of the specification: both precise strategies fail and the
  IP lookup answers Paris with \<open>lat = 0\<close>, \<open>lon = 0\<close>. The dictionary returned, which
  \<^verbatim>\<open>startup_capture\<close> writes to the location file as it is, holds the two zeros
  under \<^verbatim>\<open>lat\<close> and \<^verbatim>\<open>lon\<close>; nothing marks them absent.
\<close>

theorem ip_zero_pair_stored_counterexample:
  "snd (get_location
     \<lparr>win_out = PsRaised, netsh_out = NetshEmpty, geo_out = GeoRaised,
      ip_out = IpReply \<lparr>d_status = Some ''success'', d_query = Some ''203.0.113.7'',
                        d_country = Some ''France'', d_city = Some ''Paris'',
                        d_regionName = None, d_isp = None, d_timezone = None,
                        d_lat = Some 0, d_lon = Some 0\<rparr>\<rparr>) =
   Some \<lparr>ip = ''203.0.113.7'', country = ''France'', city = ''Paris'', region = ''Unknown'',
         isp = ''Unknown'', timezone = ''Unknown'', lat = Some 0, lon = Some 0,
         accuracy = None, source = ''IP Address (Approximate ~1-5km)''\<rparr>"
  by (simp add: get_location_def get_windows_location_def get_wifi_location_def
        ip_lookup_def get_or_def)

text \<open>
  C2, amended. When both precise strategies fail and the IP lookup succeeds with a zero or
  missing latitude and a zero or missing longitude, the dictionary has the source of the IP
  lookup and stores the pair \<open>(0, 0)\<close>; the pair is treated as absent where it is used:
  \<^verbatim>\<open>handle_location\<close> sends no map, and the delivery of the stored record sends the
  summary and no coordinates message.
\<close>

theorem ip_zero_pair_record:
  assumes "get_windows_location (win_out e) = None"
    and "get_wifi_location (netsh_out e) (geo_out e) = None"
    and "ip_out e = IpReply d" and "d_status d = Some ''success''"
    and "get_or (d_lat d) 0 = 0" and "get_or (d_lon d) 0 = 0"
  shows "\<exists>info. snd (get_location e) = Some info
           \<and> source info = ''IP Address (Approximate ~1-5km)''
           \<and> lat info = Some 0 \<and> lon info = Some 0
           \<and> city info = get_or (d_city d) ''Unknown''
           \<and> \<not> handle_location_sends_map info
           \<and> (\<forall>admin w st name.
                 is_location_json name \<and> map_of st name = Some (Json info)
                 \<and> remote w (SendMessage admin (SavedLocation (ip info) (city info) (country info)))
                 \<longrightarrow> deliver admin w st name =
                       ([SendMessage admin (SavedLocation (ip info) (city info) (country info))],
                        Inr ()))"
proof -
  let ?info = "\<lparr>ip = get_or (d_query d) ''Unknown'',
                country = get_or (d_country d) ''Unknown'',
                city = get_or (d_city d) ''Unknown'',
                region = get_or (d_regionName d) ''Unknown'',
                isp = get_or (d_isp d) ''Unknown'',
                timezone = get_or (d_timezone d) ''Unknown'',
                lat = Some 0, lon = Some 0, accuracy = None,
                source = ''IP Address (Approximate ~1-5km)''\<rparr>"
  have r: "snd (get_location e) = Some ?info"
    using assms by (simp add: get_location_def ip_lookup_def)
  have t: "\<not> truthy (lat ?info)" by (simp add: truthy_def)
  have "\<forall>admin w st name.
          is_location_json name \<and> map_of st name = Some (Json ?info)
          \<and> remote w (SendMessage admin (SavedLocation (ip ?info) (city ?info) (country ?info)))
          \<longrightarrow> deliver admin w st name =
                ([SendMessage admin (SavedLocation (ip ?info) (city ?info) (country ?info))],
                 Inr ())"
    using t by (auto simp: deliver_location_file send_def)
  with r t show ?thesis
    by (intro exI [of _ ?info]) (simp add: handle_location_sends_map_def)
qed


theorem ip_zero_pair_record_witness:
  "get_windows_location PsRaised = None \<and> get_wifi_location NetshEmpty GeoRaised = None
   \<and> (\<exists>info. snd (get_location
          \<lparr>win_out = PsRaised, netsh_out = NetshEmpty, geo_out = GeoRaised,
           ip_out = IpReply \<lparr>d_status = Some ''success'', d_query = None, d_country = None,
                             d_city = Some ''Paris'', d_regionName = None, d_isp = None,
                             d_timezone = None, d_lat = Some 0, d_lon = Some 0\<rparr>\<rparr>) = Some info
        \<and> lat info = Some 0 \<and> lon info = Some 0 \<and> city info = ''Paris''
        \<and> \<not> handle_location_sends_map info)"
proof -
  let ?d = "\<lparr>d_status = Some ''success'', d_query = None, d_country = None,
             d_city = Some ''Paris'', d_regionName = None, d_isp = None,
             d_timezone = None, d_lat = Some (0::real), d_lon = Some (0::real)\<rparr>"
  let ?e = "\<lparr>win_out = PsRaised, netsh_out = NetshEmpty, geo_out = GeoRaised,
             ip_out = IpReply ?d\<rparr>"
  have h1: "get_windows_location (win_out ?e) = None"
    by (simp add: get_windows_location_def)
  have h2: "get_wifi_location (netsh_out ?e) (geo_out ?e) = None"
    by (simp add: get_wifi_location_def)
  have h3: "ip_out ?e = IpReply ?d" by simp
  have h4: "d_status ?d = Some ''success''" by simp
  have h5: "get_or (d_lat ?d) 0 = 0" by (simp add: get_or_def)
  have h6: "get_or (d_lon ?d) 0 = 0" by (simp add: get_or_def)
  from ip_zero_pair_record [OF h1 h2 h3 h4 h5 h6] h1 h2 show ?thesis
    by (auto simp: get_or_def)
qed

subsection \<open>Fusion of the strategies\<close>

text \<open>
  C6. Every resolution ends with the IP lookup. When the device strategy yields a fix the
  Wi-Fi strategy is not called, and it is called otherwise. Whichever precise strategy
  yields the fix \<open>p\<close>, a successful IP lookup gives its metadata to the result, which keeps
  the coordinates, the accuracy and the source of \<open>p\<close>; when the lookup does not succeed,
  the result is \<open>p\<close> with unknown metadata.
\<close>

theorem precise_fix_short_circuits:
  "last (fst (get_location e)) = IP_API
   \<and> (get_windows_location (win_out e) = Some p \<longrightarrow>
        fst (get_location e) = [Windows_API, IP_API])
   \<and> (get_windows_location (win_out e) = None \<longrightarrow>
        fst (get_location e) = [Windows_API, Wifi_API, IP_API])
   \<and> ((get_windows_location (win_out e) = Some p
         \<or> get_windows_location (win_out e) = None
            \<and> get_wifi_location (netsh_out e) (geo_out e) = Some p) \<longrightarrow>
        (ip_out e = IpReply d \<and> d_status d = Some ''success'' \<longrightarrow>
           snd (get_location e) =
             Some \<lparr>ip = get_or (d_query d) ''Unknown'',
                   country = get_or (d_country d) ''Unknown'',
                   city = get_or (d_city d) ''Unknown'',
                   region = get_or (d_regionName d) ''Unknown'',
                   isp = get_or (d_isp d) ''Unknown'',
                   timezone = get_or (d_timezone d) ''Unknown'',
                   lat = Some (p_lat p), lon = Some (p_lon p),
                   accuracy = Some (p_accuracy p), source = p_source p\<rparr>)
        \<and> ((\<forall>d'. ip_out e = IpReply d' \<longrightarrow> d_status d' \<noteq> Some ''success'') \<longrightarrow>
             snd (get_location e) = Some (precise_only p)))"
proof -
  have a: "last (fst (get_location e)) = IP_API"
    by (simp add: get_location_def Let_def split: option.splits sum.splits prod.splits)
  have b: "get_windows_location (win_out e) = Some p \<longrightarrow>
        fst (get_location e) = [Windows_API, IP_API]"
    by (simp add: get_location_def Let_def split: option.splits sum.splits prod.splits)
  have c: "get_windows_location (win_out e) = None \<longrightarrow>
        fst (get_location e) = [Windows_API, Wifi_API, IP_API]"
    by (simp add: get_location_def Let_def split: option.splits sum.splits prod.splits)
  have d1: "(get_windows_location (win_out e) = Some p
         \<or> get_windows_location (win_out e) = None
            \<and> get_wifi_location (netsh_out e) (geo_out e) = Some p) \<longrightarrow>
        (ip_out e = IpReply d \<and> d_status d = Some ''success'' \<longrightarrow>
           snd (get_location e) =
             Some \<lparr>ip = get_or (d_query d) ''Unknown'',
                   country = get_or (d_country d) ''Unknown'',
                   city = get_or (d_city d) ''Unknown'',
                   region = get_or (d_regionName d) ''Unknown'',
                   isp = get_or (d_isp d) ''Unknown'',
                   timezone = get_or (d_timezone d) ''Unknown'',
                   lat = Some (p_lat p), lon = Some (p_lon p),
                   accuracy = Some (p_accuracy p), source = p_source p\<rparr>)"
    by (auto simp: get_location_def ip_lookup_def)
  have d2: "(get_windows_location (win_out e) = Some p
         \<or> get_windows_location (win_out e) = None
            \<and> get_wifi_location (netsh_out e) (geo_out e) = Some p) \<longrightarrow>
        ((\<forall>d'. ip_out e = IpReply d' \<longrightarrow> d_status d' \<noteq> Some ''success'') \<longrightarrow>
             snd (get_location e) = Some (precise_only p))"
    by (cases "ip_out e") (auto simp: get_location_def ip_lookup_def)
  from a b c d1 d2 show ?thesis by blast
qed

theorem precise_fix_short_circuits_witness:
  "get_windows_location (PsStdout [Some (377 / 10), Some (- (1224 / 10)), Some 5]) =
     Some \<lparr>p_lat = 377 / 10, p_lon = - (1224 / 10), p_accuracy = 5,
           p_source = ''GPS/Wi-Fi (Precise)''\<rparr>
   \<and> get_location
       \<lparr>win_out = PsStdout [Some (377 / 10), Some (- (1224 / 10)), Some 5],
        netsh_out = NetshNetworks 3,
        geo_out = GeoReply 200 \<lparr>g_location = Some (1, 2), g_accuracy = None\<rparr>,
        ip_out = IpReply \<lparr>d_status = Some ''success'', d_query = Some ''203.0.113.7'',
                          d_country = Some ''United States'', d_city = Some ''San Francisco'',
                          d_regionName = None, d_isp = None, d_timezone = None,
                          d_lat = Some 38, d_lon = Some (- 122)\<rparr>\<rparr> =
     ([Windows_API, IP_API],
      Some \<lparr>ip = ''203.0.113.7'', country = ''United States'', city = ''San Francisco'',
            region = ''Unknown'', isp = ''Unknown'', timezone = ''Unknown'',
            lat = Some (377 / 10), lon = Some (- (1224 / 10)), accuracy = Some 5,
            source = ''GPS/Wi-Fi (Precise)''\<rparr>)"
proof -
  let ?p = "\<lparr>p_lat = 377 / 10, p_lon = - (1224 / 10), p_accuracy = 5,
             p_source = ''GPS/Wi-Fi (Precise)''\<rparr>"
  let ?d = "\<lparr>d_status = Some ''success'', d_query = Some ''203.0.113.7'',
             d_country = Some ''United States'', d_city = Some ''San Francisco'',
             d_regionName = None, d_isp = None, d_timezone = None,
             d_lat = Some (38::real), d_lon = Some (- 122::real)\<rparr>"
  let ?e = "\<lparr>win_out = PsStdout [Some (377 / 10), Some (- (1224 / 10)), Some 5],
             netsh_out = NetshNetworks 3,
             geo_out = GeoReply 200 \<lparr>g_location = Some (1, 2), g_accuracy = None\<rparr>,
             ip_out = IpReply ?d\<rparr>"
  have h: "get_windows_location (win_out ?e) = Some ?p"
    by (simp add: get_windows_location_def windows_fix_def py_float_def)
  have "fst (get_location ?e) = [Windows_API, IP_API]"
    using precise_fix_short_circuits [of ?e ?p ?d] h by blast
  moreover have "snd (get_location ?e) =
     Some \<lparr>ip = ''203.0.113.7'', country = ''United States'', city = ''San Francisco'',
           region = ''Unknown'', isp = ''Unknown'', timezone = ''Unknown'',
           lat = Some (377 / 10), lon = Some (- (1224 / 10)), accuracy = Some 5,
           source = ''GPS/Wi-Fi (Precise)''\<rparr>"
    using precise_fix_short_circuits [of ?e ?p ?d] h by (simp add: get_or_def)
  ultimately show ?thesis using h by (simp add: prod_eq_iff)
qed




subsection \<open>The coordinates message\<close>

lemma truthy_iff: "truthy v \<longleftrightarrow> (\<exists>x. v = Some x \<and> x \<noteq> 0)"
  by (cases v) (auto simp: truthy_def)

text \<open>
  C10. In the delivery of a stored location record a coordinates message is sent only when
  \<^verbatim>\<open>lat\<close> and \<^verbatim>\<open>lon\<close> are both there and both differ from zero. A record with a
  missing or zero latitude, or a missing or zero longitude, has its summary delivered and
  nothing else, and the body ends without an exception; this includes a fix on the equator
  or on the prime meridian. A record with two nonzero coordinates has the summary and then
  the coordinates delivered. \<^verbatim>\<open>handle_location\<close> applies the same test.
\<close>

theorem coordinates_message_needs_nonzero_pair:
  assumes "is_location_json name" and "map_of st name = Some (Json info)"
  shows "(SendLocation a la lo \<in> set (fst (deliver admin w st name)) \<longrightarrow>
            lat info = Some la \<and> lon info = Some lo \<and> la \<noteq> 0 \<and> lo \<noteq> 0)
       \<and> (remote w (SendMessage admin (SavedLocation (ip info) (city info) (country info)))
            \<and> (lat info = None \<or> lat info = Some 0 \<or> lon info = None \<or> lon info = Some 0) \<longrightarrow>
            deliver admin w st name =
              ([SendMessage admin (SavedLocation (ip info) (city info) (country info))], Inr ()))
       \<and> (remote w (SendMessage admin (SavedLocation (ip info) (city info) (country info)))
            \<and> lat info = Some la \<and> la \<noteq> 0 \<and> lon info = Some lo \<and> lo \<noteq> 0
            \<and> remote w (SendLocation admin la lo) \<longrightarrow>
            deliver admin w st name =
              ([SendMessage admin (SavedLocation (ip info) (city info) (country info)),
                SendLocation admin la lo], Inr ()))
       \<and> (handle_location_sends_map info \<longleftrightarrow>
            (\<exists>x y. lat info = Some x \<and> lon info = Some y \<and> x \<noteq> 0 \<and> y \<noteq> 0))"
proof -
  note d = deliver_location_file [OF assms, of admin w]
  have a: "SendLocation a la lo \<in> set (fst (deliver admin w st name)) \<longrightarrow>
            lat info = Some la \<and> lon info = Some lo \<and> la \<noteq> 0 \<and> lo \<noteq> 0"
    unfolding d by (auto simp: send_def truthy_iff split: if_splits)
  have b: "remote w (SendMessage admin (SavedLocation (ip info) (city info) (country info)))
            \<and> (lat info = None \<or> lat info = Some 0 \<or> lon info = None \<or> lon info = Some 0) \<longrightarrow>
            deliver admin w st name =
              ([SendMessage admin (SavedLocation (ip info) (city info) (country info))], Inr ())"
    unfolding d by (auto simp: send_def truthy_def)
  have c: "remote w (SendMessage admin (SavedLocation (ip info) (city info) (country info)))
            \<and> lat info = Some la \<and> la \<noteq> 0 \<and> lon info = Some lo \<and> lo \<noteq> 0
            \<and> remote w (SendLocation admin la lo) \<longrightarrow>
            deliver admin w st name =
              ([SendMessage admin (SavedLocation (ip info) (city info) (country info)),
                SendLocation admin la lo], Inr ())"
    unfolding d by (auto simp: send_def truthy_def)
  have e: "handle_location_sends_map info \<longleftrightarrow>
            (\<exists>x y. lat info = Some x \<and> lon info = Some y \<and> x \<noteq> 0 \<and> y \<noteq> 0)"
    by (auto simp: handle_location_sends_map_def truthy_iff)
  from a b c e show ?thesis by blast
qed


theorem coordinates_message_needs_nonzero_pair_witness:
  "is_location_json (location_name ''20250101_120000'')
   \<and> deliver 7 \<lparr>online = True, remote = (\<lambda>c. True)\<rparr>
        [(location_name ''20250101_120000'',
          Json \<lparr>ip = ''203.0.113.7'', country = ''Kenya'', city = ''Nanyuki'',
                region = ''Unknown'', isp = ''Unknown'', timezone = ''Unknown'',
                lat = Some 0, lon = Some 37, accuracy = Some 5,
                source = ''GPS/Wi-Fi (Precise)''\<rparr>)]
        (location_name ''20250101_120000'') =
       ([SendMessage 7 (SavedLocation ''203.0.113.7'' ''Nanyuki'' ''Kenya'')], Inr ())"
proof -
  let ?info = "\<lparr>ip = ''203.0.113.7'', country = ''Kenya'', city = ''Nanyuki'',
                region = ''Unknown'', isp = ''Unknown'', timezone = ''Unknown'',
                lat = Some (0::real), lon = Some (37::real), accuracy = Some (5::real),
                source = ''GPS/Wi-Fi (Precise)''\<rparr>"
  let ?n = "location_name ''20250101_120000''"
  let ?w = "\<lparr>online = True, remote = (\<lambda>c. True)\<rparr>"
  have h1: "is_location_json ?n" by (rule is_location_json_location_name)
  have h2: "map_of [(?n, Json ?info)] ?n = Some (Json ?info)" by simp
  from coordinates_message_needs_nonzero_pair [OF h1 h2, of _ _ _ 7 ?w] h1
  show ?thesis by simp
qed

subsection \<open>The listing of the pending files\<close>

text \<open>
  C3, as stated: a location record is written on 1 January and a photo on 2 January, in
  that order, and the directory enumerates them in that order. The listing names the photo
  first, so it is not in creation order; and the name of the older file is the greater one
  in lexical order (\<open>l\<close> comes after \<open>c\<close>), so the lexical order of the names is not
  the creation order either.
\<close>

theorem listing_not_creation_order_counterexample:
  "get_pending_files
     (write_file
        (write_file [] (location_name ''20250101_080000'') (Json \<lparr>ip = ''203.0.113.7'', country = ''France'', city = ''Paris'', region = ''Unknown'',
                 isp = ''Unknown'', timezone = ''Unknown'', lat = Some 49, lon = Some 2,
                 accuracy = None, source = ''IP Address (Approximate ~1-5km)''\<rparr>))
        (capture_name ''20250102_080000'') (Jpeg ''frame'')) =
   [capture_name ''20250102_080000'', location_name ''20250101_080000'']
   \<and> names (write_file
        (write_file [] (location_name ''20250101_080000'') (Json \<lparr>ip = ''203.0.113.7'', country = ''France'', city = ''Paris'', region = ''Unknown'',
                 isp = ''Unknown'', timezone = ''Unknown'', lat = Some 49, lon = Some 2,
                 accuracy = None, source = ''IP Address (Approximate ~1-5km)''\<rparr>))
        (capture_name ''20250102_080000'') (Jpeg ''frame'')) =
   [location_name ''20250101_080000'', capture_name ''20250102_080000'']"
  by (simp add: get_pending_files_def write_file_def names_def location_name_def
        capture_name_def is_jpg_def is_location_json_def suffix_def prefix_def)

lemma filter_jpg_location: "filter (\<lambda>n. is_location_json n \<and> is_jpg n) xs = []"
  using not_jpg_and_location by (induction xs) auto

lemma filter_location_jpg: "filter (\<lambda>n. is_jpg n \<and> is_location_json n) xs = []"
  using not_jpg_and_location by (induction xs) auto

text \<open>
  C3, amended. The listing holds exactly the photo files and the location files of the
  directory, without repetition; all photos come first and all location records after
  them; and within each kind the files are in the order in which the directory enumerates
  them. The listing is a function of the directory alone.
\<close>

theorem pending_files_photos_then_locations:
  "set (get_pending_files st) = {n \<in> set (names st). is_jpg n \<or> is_location_json n}
   \<and> get_pending_files st =
       filter is_jpg (get_pending_files st) @ filter is_location_json (get_pending_files st)
   \<and> filter is_jpg (get_pending_files st) = filter is_jpg (names st)
   \<and> filter is_location_json (get_pending_files st) = filter is_location_json (names st)
   \<and> (distinct (names st) \<longrightarrow> distinct (get_pending_files st))"
proof -
  have a: "set (get_pending_files st) = {n \<in> set (names st). is_jpg n \<or> is_location_json n}"
    by (auto simp: get_pending_files_def)
  have c: "filter is_jpg (get_pending_files st) = filter is_jpg (names st)"
    by (simp add: get_pending_files_def filter_jpg_location)
  have d: "filter is_location_json (get_pending_files st) = filter is_location_json (names st)"
    by (simp add: get_pending_files_def filter_location_jpg)
  have b: "get_pending_files st =
       filter is_jpg (get_pending_files st) @ filter is_location_json (get_pending_files st)"
    unfolding c d by (simp add: get_pending_files_def)
  have e: "distinct (names st) \<longrightarrow> distinct (get_pending_files st)"
    using not_jpg_and_location by (auto simp: get_pending_files_def)
  from a b c d e show ?thesis by blast
qed

theorem pending_files_photos_then_locations_witness:
  "distinct (names [(''location_1.json'', Garbled), (''capture_2.jpg'', Jpeg ''f'')])
   \<and> distinct (get_pending_files [(''location_1.json'', Garbled), (''capture_2.jpg'', Jpeg ''f'')])"
  using pending_files_photos_then_locations
          [of "[(''location_1.json'', Garbled), (''capture_2.jpg'', Jpeg ''f'')]"]
  by (simp add: names_def)

subsection \<open>The drain\<close>

lemma deliver_cong:
  "map_of st name = map_of st' name \<Longrightarrow> deliver a w st name = deliver a w st' name"
  by (simp add: deliver_def open_file_def)

lemma map_of_after_delete_None:
  "map_of st q = None \<Longrightarrow> map_of (after_delete st p) q = None"
  by (cases "q = p") (simp_all add: map_of_after_delete map_of_after_delete_same)

lemma send_one_cases:
  "send_one a w f acc = (fst acc, snd acc @ fst (deliver a w (fst acc) f))
   \<or> send_one a w f acc = (after_delete (fst acc) f, snd acc @ fst (deliver a w (fst acc) f))"
  by (simp add: send_one_def split: prod.splits sum.splits)

lemma send_one_other:
  "f \<noteq> name \<Longrightarrow> map_of (fst (send_one a w f acc)) name = map_of (fst acc) name"
  using send_one_cases [of a w f acc] by (auto simp: map_of_after_delete)

lemma send_one_absent:
  "map_of (fst acc) name = None \<Longrightarrow> map_of (fst (send_one a w f acc)) name = None"
  using send_one_cases [of a w f acc] by (auto simp: map_of_after_delete_None)

lemma send_one_sent: "\<exists>s. snd (send_one a w f acc) = snd acc @ s"
  using send_one_cases [of a w f acc] by auto

lemma fold_send_absent:
  "map_of (fst acc) name = None \<Longrightarrow> map_of (fst (fold (send_one a w) files acc)) name = None"
  by (induction files arbitrary: acc) (simp_all add: send_one_absent)

lemma fold_send_sent: "\<exists>s. snd (fold (send_one a w) files acc) = snd acc @ s"
proof (induction files arbitrary: acc)
  case Nil
  then show ?case by simp
next
  case (Cons f files)
  obtain s1 where s1: "snd (send_one a w f acc) = snd acc @ s1"
    using send_one_sent by blast
  obtain s2 where "snd (fold (send_one a w) files (send_one a w f acc)) =
      snd (send_one a w f acc) @ s2"
    using Cons.IH by blast
  with s1 show ?case by simp
qed

lemma fold_send_kept:
  assumes "snd (deliver a w st0 name) = Inl e" and "map_of (fst acc) name = map_of st0 name"
  shows "map_of (fst (fold (send_one a w) files acc)) name = map_of st0 name"
  using assms(2)
proof (induction files arbitrary: acc)
  case Nil
  then show ?case by simp
next
  case (Cons f files)
  have "map_of (fst (send_one a w f acc)) name = map_of st0 name"
  proof (cases "f = name")
    case True
    have "deliver a w (fst acc) name = deliver a w st0 name"
      using Cons.prems by (rule deliver_cong)
    with assms(1) True have "fst (send_one a w f acc) = fst acc"
      by (cases "deliver a w st0 name") (simp add: send_one_def)
    with Cons.prems show ?thesis by simp
  next
    case False
    with Cons.prems show ?thesis by (simp add: send_one_other)
  qed
  then show ?case using Cons.IH by simp
qed

lemma fold_send_delivered:
  assumes "deliver a w st0 name = (s, Inr ())"
    and "name \<in> set files" and "map_of (fst acc) name = map_of st0 name"
  shows "map_of (fst (fold (send_one a w) files acc)) name = None
         \<and> (\<exists>pre post. snd (fold (send_one a w) files acc) = pre @ s @ post)"
  using assms(2,3)
proof (induction files arbitrary: acc)
  case Nil
  then show ?case by simp
next
  case (Cons f files)
  show ?case
  proof (cases "f = name")
    case True
    have "deliver a w (fst acc) name = (s, Inr ())"
      using deliver_cong [OF Cons.prems(2)] assms(1) by simp
    then have one: "send_one a w f acc = (after_delete (fst acc) name, snd acc @ s)"
      using True by (simp add: send_one_def)
    then have "map_of (fst (send_one a w f acc)) name = None"
      by (simp add: map_of_after_delete_same)
    then have gone: "map_of (fst (fold (send_one a w) files (send_one a w f acc))) name = None"
      by (rule fold_send_absent)
    obtain s2 where "snd (fold (send_one a w) files (send_one a w f acc)) =
        snd (send_one a w f acc) @ s2"
      using fold_send_sent by blast
    with one have "snd (fold (send_one a w) files (send_one a w f acc)) = snd acc @ s @ s2"
      by simp
    with gone show ?thesis by auto
  next
    case False
    with Cons.prems have "name \<in> set files" by simp
    moreover have "map_of (fst (send_one a w f acc)) name = map_of st0 name"
      using False Cons.prems(2) by (simp add: send_one_other)
    ultimately show ?thesis using Cons.IH by simp
  qed
qed

lemma deliver_location_calls:
  assumes "is_location_json name" and "map_of st name = Some (Json info)"
  shows "deliver a w st name =
     (takeWhile (remote w) (location_calls a info),
      if \<forall>c \<in> set (location_calls a info). remote w c then Inr () else Inl TelegramError)"
  unfolding deliver_location_file [OF assms]
  by (auto simp: send_def location_calls_def truthy_def split: option.splits)

lemma drain_unfold:
  assumes "name \<in> set (get_pending_files st)" and "a \<noteq> 0"
  shows "send_pending_files (Some a) w st = fold (send_one a w) (get_pending_files st) (st, [])"
proof -
  from assms(1) have "get_pending_files st \<noteq> []" by auto
  with assms(2) show ?thesis by (simp add: send_pending_files_def Let_def)
qed

lemma location_file_pending:
  assumes "is_location_json name" and "map_of st name = Some d"
  shows "name \<in> set (get_pending_files st)"
proof -
  from assms(2) have "(name, d) \<in> set st" by (rule map_of_SomeD)
  then have "name \<in> set (names st)" by (force simp: names_def)
  with assms(1) show ?thesis by (simp add: get_pending_files_def)
qed

lemma drain_location_kept:
  assumes "is_location_json name" and "map_of st name = Some (Json info)" and "a \<noteq> 0"
    and "\<exists>c \<in> set (location_calls a info). \<not> remote w c"
  shows "map_of (fst (send_pending_files (Some a) w st)) name = Some (Json info)"
proof -
  have "snd (deliver a w st name) = Inl TelegramError"
    using assms(4) by (auto simp: deliver_location_calls [OF assms(1,2)])
  then have "map_of (fst (fold (send_one a w) (get_pending_files st) (st, []))) name =
      map_of st name"
    by (rule fold_send_kept) simp
  then show ?thesis
    using drain_unfold [OF location_file_pending [OF assms(1,2)] assms(3)] assms(2) by simp
qed

lemma drain_location_delivered:
  assumes "is_location_json name" and "map_of st name = Some (Json info)" and "a \<noteq> 0"
    and "\<forall>c \<in> set (location_calls a info). remote w c"
  shows "map_of (fst (send_pending_files (Some a) w st)) name = None
         \<and> sublist (location_calls a info) (snd (send_pending_files (Some a) w st))"
proof -
  have "takeWhile (remote w) (location_calls a info) = location_calls a info"
    using assms(4) by (simp add: takeWhile_eq_all_conv)
  then have "deliver a w st name = (location_calls a info, Inr ())"
    using assms(4) by (simp add: deliver_location_calls [OF assms(1,2)])
  from fold_send_delivered [OF this location_file_pending [OF assms(1,2)], of "(st, [])"]
  have "map_of (fst (fold (send_one a w) (get_pending_files st) (st, []))) name = None
        \<and> (\<exists>pre post. snd (fold (send_one a w) (get_pending_files st) (st, [])) =
              pre @ location_calls a info @ post)"
    by simp
  then show ?thesis
    unfolding drain_unfold [OF location_file_pending [OF assms(1,2)] assms(3)] sublist_def
    by simp
qed

subsection \<open>Delivery of a location record by the drain\<close>

text \<open>
  C4. A location record that is pending is delivered by the calls of
  \<open>location_calls\<close>: the summary, then the coordinates when a fix is there. When the
  sink fails one of them, the drain leaves the file in the store with its contents; when
  the sink accepts them all, the drain removes the file and the calls delivered hold the
  summary followed by the coordinates; and a drain that follows a failed one, with a sink
  that accepts the calls, removes the file and delivers both again.
\<close>

theorem location_delivery_all_or_nothing:
  assumes "is_location_json name" and "map_of st name = Some (Json info)" and "a \<noteq> 0"
  shows "((\<exists>c \<in> set (location_calls a info). \<not> remote w c) \<longrightarrow>
            map_of (fst (send_pending_files (Some a) w st)) name = Some (Json info))
       \<and> ((\<forall>c \<in> set (location_calls a info). remote w c) \<longrightarrow>
            map_of (fst (send_pending_files (Some a) w st)) name = None
            \<and> sublist (location_calls a info) (snd (send_pending_files (Some a) w st)))
       \<and> ((\<exists>c \<in> set (location_calls a info). \<not> remote w c)
            \<and> (\<forall>c \<in> set (location_calls a info). remote w' c) \<longrightarrow>
            map_of (fst (send_pending_files (Some a) w'
                           (fst (send_pending_files (Some a) w st)))) name = None
            \<and> sublist (location_calls a info)
                 (snd (send_pending_files (Some a) w'
                         (fst (send_pending_files (Some a) w st)))))"
proof -
  have k: "(\<exists>c \<in> set (location_calls a info). \<not> remote w c) \<longrightarrow>
            map_of (fst (send_pending_files (Some a) w st)) name = Some (Json info)"
    using drain_location_kept [OF assms] by blast
  have d: "(\<forall>c \<in> set (location_calls a info). remote w c) \<longrightarrow>
            map_of (fst (send_pending_files (Some a) w st)) name = None
            \<and> sublist (location_calls a info) (snd (send_pending_files (Some a) w st))"
    using drain_location_delivered [OF assms] by blast
  have r: "(\<exists>c \<in> set (location_calls a info). \<not> remote w c)
            \<and> (\<forall>c \<in> set (location_calls a info). remote w' c) \<longrightarrow>
            map_of (fst (send_pending_files (Some a) w'
                           (fst (send_pending_files (Some a) w st)))) name = None
            \<and> sublist (location_calls a info)
                 (snd (send_pending_files (Some a) w'
                         (fst (send_pending_files (Some a) w st))))"
  proof (intro impI, elim conjE)
    assume f: "\<exists>c \<in> set (location_calls a info). \<not> remote w c"
      and g: "\<forall>c \<in> set (location_calls a info). remote w' c"
    have "map_of (fst (send_pending_files (Some a) w st)) name = Some (Json info)"
      using drain_location_kept [OF assms f] .
    from drain_location_delivered [OF assms(1) this assms(3) g]
    show "map_of (fst (send_pending_files (Some a) w'
                           (fst (send_pending_files (Some a) w st)))) name = None
            \<and> sublist (location_calls a info)
                 (snd (send_pending_files (Some a) w'
                         (fst (send_pending_files (Some a) w st))))" .
  qed
  from k d r show ?thesis by blast
qed


theorem location_delivery_all_or_nothing_witness:
  "map_of
     (fst (send_pending_files (Some 7)
        \<lparr>online = True, remote = (\<lambda>c. case c of SendLocation i x y \<Rightarrow> False | _ \<Rightarrow> True)\<rparr>
        [(location_name ''20250101_120000'',
          Json \<lparr>ip = ''203.0.113.7'', country = ''France'', city = ''Paris'',
                region = ''Unknown'', isp = ''Unknown'', timezone = ''Unknown'',
                lat = Some 49, lon = Some 2, accuracy = Some 5,
                source = ''GPS/Wi-Fi (Precise)''\<rparr>)]))
     (location_name ''20250101_120000'') =
   Some (Json \<lparr>ip = ''203.0.113.7'', country = ''France'', city = ''Paris'',
                region = ''Unknown'', isp = ''Unknown'', timezone = ''Unknown'',
                lat = Some 49, lon = Some 2, accuracy = Some 5,
                source = ''GPS/Wi-Fi (Precise)''\<rparr>)
   \<and> sublist [SendMessage 7 (SavedLocation ''203.0.113.7'' ''Paris'' ''France''),
               SendLocation 7 49 2]
       (snd (send_pending_files (Some 7) \<lparr>online = True, remote = (\<lambda>c. True)\<rparr>
          (fst (send_pending_files (Some 7)
             \<lparr>online = True, remote = (\<lambda>c. case c of SendLocation i x y \<Rightarrow> False | _ \<Rightarrow> True)\<rparr>
             [(location_name ''20250101_120000'',
               Json \<lparr>ip = ''203.0.113.7'', country = ''France'', city = ''Paris'',
                     region = ''Unknown'', isp = ''Unknown'', timezone = ''Unknown'',
                     lat = Some 49, lon = Some 2, accuracy = Some 5,
                     source = ''GPS/Wi-Fi (Precise)''\<rparr>)]))))"
proof -
  let ?info = "\<lparr>ip = ''203.0.113.7'', country = ''France'', city = ''Paris'',
                region = ''Unknown'', isp = ''Unknown'', timezone = ''Unknown'',
                lat = Some (49::real), lon = Some (2::real), accuracy = Some (5::real),
                source = ''GPS/Wi-Fi (Precise)''\<rparr>"
  let ?n = "location_name ''20250101_120000''"
  let ?w = "\<lparr>online = True,
             remote = (\<lambda>c. case c of SendLocation i x y \<Rightarrow> False | _ \<Rightarrow> True)\<rparr>"
  let ?w' = "\<lparr>online = True, remote = (\<lambda>c. True)\<rparr>"
  have h1: "is_location_json ?n" by (rule is_location_json_location_name)
  have h2: "map_of [(?n, Json ?info)] ?n = Some (Json ?info)" by simp
  have h3: "(7::int) \<noteq> 0" by simp
  have c: "location_calls 7 ?info =
      [SendMessage 7 (SavedLocation ''203.0.113.7'' ''Paris'' ''France''), SendLocation 7 49 2]"
    by (simp add: location_calls_def)
  have f: "\<exists>c \<in> set (location_calls 7 ?info). \<not> remote ?w c" unfolding c by simp
  have g: "\<forall>c \<in> set (location_calls 7 ?info). remote ?w' c" by simp
  from location_delivery_all_or_nothing [OF h1 h2 h3, of ?w ?w'] f g c
  show ?thesis by simp
qed

subsection \<open>Drains without a sink, and the capture loop\<close>

lemma capture_name_not_bare: "capture_name ts \<noteq> ''.jpg''"
  by (simp add: capture_name_def)

lemma py_suffix_capture_name: "py_suffix (capture_name ts) = ''.jpg''"
  by (rule py_suffix_jpg [OF is_jpg_capture_name capture_name_not_bare])

lemma deliver_offline:
  assumes "\<forall>c. \<not> remote w c" and "(is_jpg f \<and> f \<noteq> ''.jpg'') \<or> is_location_json f"
  shows "\<exists>e. deliver a w st f = ([], Inl e)"
  using assms(2)
proof
  assume "is_jpg f \<and> f \<noteq> ''.jpg''"
  then have "py_suffix f = ''.jpg''" by (simp add: py_suffix_jpg)
  then show ?thesis
    using assms(1) by (simp add: deliver_def send_def split: sum.splits)
next
  assume l: "is_location_json f"
  have "py_suffix f = ''.json''" using l by (rule py_suffix_location)
  moreover have "sublist ''location'' f" using l by (rule location_in_name)
  ultimately show ?thesis
    using assms(1) by (simp add: deliver_def send_def split: sum.splits)
qed

lemma send_one_offline:
  assumes "\<forall>c. \<not> remote w c" and "(is_jpg f \<and> f \<noteq> ''.jpg'') \<or> is_location_json f"
  shows "send_one a w f acc = acc"
proof -
  obtain e where "deliver a w (fst acc) f = ([], Inl e)"
    using deliver_offline [OF assms] by blast
  then show ?thesis by (simp add: send_one_def)
qed

lemma fold_send_offline:
  assumes "\<forall>c. \<not> remote w c"
    and "\<forall>f \<in> set files. (is_jpg f \<and> f \<noteq> ''.jpg'') \<or> is_location_json f"
  shows "fold (send_one a w) files acc = acc"
  using assms(2) by (induction files arbitrary: acc) (simp_all add: send_one_offline [OF assms(1)])

lemma drain_offline:
  assumes "\<forall>c. \<not> remote w c" and "''.jpg'' \<notin> set (names st)"
  shows "send_pending_files admin_id w st = (st, [])"
proof -
  have "\<forall>f \<in> set (get_pending_files st). (is_jpg f \<and> f \<noteq> ''.jpg'') \<or> is_location_json f"
    using assms(2) by (auto simp: get_pending_files_def)
  then have "fold (send_one a w) (get_pending_files st) (st, []) = (st, [])" for a
    using fold_send_offline [OF assms(1)] by blast
  then show ?thesis by (simp add: send_pending_files_def Let_def split: option.splits)
qed

lemma drains_offline:
  assumes "\<forall>c. \<not> remote w c" and "''.jpg'' \<notin> set (names st)"
  shows "((\<lambda>s. fst (send_pending_files admin_id w s)) ^^ M) st = st"
  by (induction M) (simp_all add: drain_offline [OF assms])

lemma send_online: "send (w\<lparr>online := b\<rparr>) = send w"
  by (intro ext) (simp add: send_def)

lemma deliver_online: "deliver a (w\<lparr>online := b\<rparr>) = deliver a w"
  unfolding deliver_def send_online by (rule refl)

lemma send_one_online: "send_one a (w\<lparr>online := b\<rparr>) = send_one a w"
  unfolding send_one_def deliver_online by (rule refl)

lemma drain_ignores_probe:
  "send_pending_files admin_id (w\<lparr>online := b\<rparr>) st = send_pending_files admin_id w st"
  unfolding send_pending_files_def send_one_online by (rule refl)

lemma names_write_file:
  "names (write_file st p d) = (if p \<in> set (names st) then names st else names st @ [p])"
proof -
  have "map fst (map (\<lambda>(q, e). if q = p then (q, d) else (q, e)) st) = map fst st"
    by (induction st) auto
  then show ?thesis by (simp add: write_file_def names_def)
qed

lemma capture_round_frame:
  "is_frame (cam a) \<Longrightarrow>
     names (fst (capture_round a acc)) =
       (if capture_name (now a) \<in> set (names (fst acc)) then names (fst acc)
        else names (fst acc) @ [capture_name (now a)])
     \<and> snd (capture_round a acc) = snd acc + 1"
  by (cases "cam a") (simp_all add: is_frame_def capture_round_def capture_def names_write_file)

lemma capture_round_failed: "\<not> is_frame (cam a) \<Longrightarrow> capture_round a acc = acc"
  by (cases "cam a") (simp_all add: is_frame_def capture_round_def capture_def)

lemma capture_name_inj: "capture_name s = capture_name t \<longleftrightarrow> s = t"
  by (simp add: capture_name_def)

lemma capture_loop:
  assumes "distinct (map now (filter (\<lambda>a. is_frame (cam a)) atts))"
    and "\<forall>a \<in> set atts. is_frame (cam a) \<longrightarrow> capture_name (now a) \<notin> set (names (fst acc))"
  shows "names (fst (fold capture_round atts acc)) =
           names (fst acc) @ map (\<lambda>a. capture_name (now a)) (filter (\<lambda>a. is_frame (cam a)) atts)
         \<and> snd (fold capture_round atts acc) =
           snd acc + length (filter (\<lambda>a. is_frame (cam a)) atts)"
  using assms
proof (induction atts arbitrary: acc)
  case Nil
  then show ?case by simp
next
  case (Cons a atts)
  show ?case
  proof (cases "is_frame (cam a)")
    case True
    from Cons.prems(2) True have fresh: "capture_name (now a) \<notin> set (names (fst acc))" by simp
    with capture_round_frame [OF True, of acc]
    have n: "names (fst (capture_round a acc)) = names (fst acc) @ [capture_name (now a)]"
      and c: "snd (capture_round a acc) = snd acc + 1" by simp_all
    have d: "distinct (map now (filter (\<lambda>a. is_frame (cam a)) atts))"
      using Cons.prems(1) True by simp
    have "now a \<notin> now ` {x \<in> set atts. is_frame (cam x)}"
      using Cons.prems(1) True by simp
    then have "\<forall>b \<in> set atts. is_frame (cam b) \<longrightarrow> now b \<noteq> now a"
      by (metis (mono_tags, lifting) image_eqI mem_Collect_eq)
    then have f: "\<forall>b \<in> set atts. is_frame (cam b) \<longrightarrow>
        capture_name (now b) \<notin> set (names (fst (capture_round a acc)))"
      using Cons.prems(2) by (simp add: n capture_name_inj)
    from Cons.IH [OF d f] n c True show ?thesis by simp
  next
    case False
    then have "capture_round a acc = acc" by (rule capture_round_failed)
    moreover have "distinct (map now (filter (\<lambda>a. is_frame (cam a)) atts))"
      using Cons.prems(1) False by simp
    moreover have "\<forall>b \<in> set atts. is_frame (cam b) \<longrightarrow>
        capture_name (now b) \<notin> set (names (fst acc))"
      using Cons.prems(2) by simp
    ultimately show ?thesis using Cons.IH [of acc] False by simp
  qed
qed

subsection \<open>The gate of the drain\<close>

text \<open>
  C5, as stated: the connectivity probe reports offline, the administrator is registered
  and the sink accepts the photo. \<^verbatim>\<open>send_pending_files\<close> does not ask the probe; it
  delivers the photo and removes it from the store.
\<close>

theorem offline_probe_drain_counterexample:
  "\<not> check_internet \<lparr>online = False, remote = (\<lambda>c. True)\<rparr>
   \<and> send_pending_files (Some 7) \<lparr>online = False, remote = (\<lambda>c. True)\<rparr>
        [(capture_name ''20250101_120000'', Jpeg ''frame'')] =
      ([], [SendPhoto 7 (capture_name ''20250101_120000'') (Jpeg ''frame'')])"
  by (simp add: check_internet_def send_pending_files_def get_pending_files_def names_def
        is_jpg_capture_name send_one_def deliver_def py_suffix_capture_name open_file_def
        send_def after_delete_eq)

lemma captures_no_bare_jpg:
  assumes "distinct (map now (filter (\<lambda>a. is_frame (cam a)) atts))"
  shows "''.jpg'' \<notin> set (names (fst (fold capture_round atts ([], 0))))"
    and "length (get_pending_files (fst (fold capture_round atts ([], 0)))) =
           length (filter (\<lambda>a. is_frame (cam a)) atts)"
proof -
  have n: "names (fst (fold capture_round atts ([], 0))) =
      map (\<lambda>a. capture_name (now a)) (filter (\<lambda>a. is_frame (cam a)) atts)"
    using capture_loop [OF assms, of "([], 0)"] by (simp add: names_def)
  show "''.jpg'' \<notin> set (names (fst (fold capture_round atts ([], 0))))"
    unfolding n by (auto simp: capture_name_def)
  have j: "filter is_jpg (map (\<lambda>a. capture_name (now a)) xs) = map (\<lambda>a. capture_name (now a)) xs"
    for xs :: "attempt list"
    by (induction xs) (simp_all add: is_jpg_capture_name)
  have l: "filter is_location_json (map (\<lambda>a. capture_name (now a)) xs) = []"
    for xs :: "attempt list"
    using not_jpg_and_location is_jpg_capture_name by (induction xs) auto
  show "length (get_pending_files (fst (fold capture_round atts ([], 0)))) =
           length (filter (\<lambda>a. is_frame (cam a)) atts)"
    by (simp add: get_pending_files_def n j l)
qed

text \<open>
  C5, amended. Without a registered administrator the drain changes nothing and sends
  nothing. The drain does not read the answer of the connectivity probe. When every call of
  the sink fails, as it does without connectivity, the drain changes nothing and sends
  nothing, however often it is repeated; in particular, after a burst of captures with
  distinct timestamps into an empty directory and \<open>M\<close> such drains, the pending files
  are as many as the captures that succeeded. (A file named \<^verbatim>\<open>.jpg\<close>, which no capture
  writes, is excluded: \<^verbatim>\<open>Path.suffix\<close> of that name is empty, and the drain deletes
  the file without a call.)
\<close>

theorem drain_needs_admin_and_sink:
  "(admin_id = None \<or> admin_id = Some 0 \<longrightarrow> send_pending_files admin_id w st = (st, []))
   \<and> send_pending_files admin_id (w\<lparr>online := b\<rparr>) st = send_pending_files admin_id w st
   \<and> ((\<forall>c. \<not> remote w c) \<and> ''.jpg'' \<notin> set (names st) \<longrightarrow>
        send_pending_files admin_id w st = (st, [])
        \<and> ((\<lambda>s. fst (send_pending_files admin_id w s)) ^^ M) st = st)
   \<and> ((\<forall>c. \<not> remote w c) \<and> distinct (map now (filter (\<lambda>a. is_frame (cam a)) atts)) \<longrightarrow>
        length (get_pending_files
          (((\<lambda>s. fst (send_pending_files admin_id w s)) ^^ M)
             (fst (fold capture_round atts ([], 0))))) =
        length (filter (\<lambda>a. is_frame (cam a)) atts))"
proof -
  have a: "admin_id = None \<or> admin_id = Some 0 \<longrightarrow> send_pending_files admin_id w st = (st, [])"
    by (auto simp: send_pending_files_def)
  have p: "send_pending_files admin_id (w\<lparr>online := b\<rparr>) st = send_pending_files admin_id w st"
    by (rule drain_ignores_probe)
  have o: "(\<forall>c. \<not> remote w c) \<and> ''.jpg'' \<notin> set (names st) \<longrightarrow>
        send_pending_files admin_id w st = (st, [])
        \<and> ((\<lambda>s. fst (send_pending_files admin_id w s)) ^^ M) st = st"
    using drain_offline drains_offline by blast
  have n: "(\<forall>c. \<not> remote w c) \<and> distinct (map now (filter (\<lambda>a. is_frame (cam a)) atts)) \<longrightarrow>
        length (get_pending_files
          (((\<lambda>s. fst (send_pending_files admin_id w s)) ^^ M)
             (fst (fold capture_round atts ([], 0))))) =
        length (filter (\<lambda>a. is_frame (cam a)) atts)"
  proof (intro impI, elim conjE)
    assume off: "\<forall>c. \<not> remote w c"
      and d: "distinct (map now (filter (\<lambda>a. is_frame (cam a)) atts))"
    have "((\<lambda>s. fst (send_pending_files admin_id w s)) ^^ M)
             (fst (fold capture_round atts ([], 0))) = fst (fold capture_round atts ([], 0))"
      using drains_offline [OF off captures_no_bare_jpg(1) [OF d]] .
    then show "length (get_pending_files
          (((\<lambda>s. fst (send_pending_files admin_id w s)) ^^ M)
             (fst (fold capture_round atts ([], 0))))) =
        length (filter (\<lambda>a. is_frame (cam a)) atts)"
      using captures_no_bare_jpg(2) [OF d] by simp
  qed
  from a p o n show ?thesis by blast
qed


theorem drain_needs_admin_and_sink_witness:
  "send_pending_files None \<lparr>online = True, remote = (\<lambda>c. True)\<rparr>
      [(''capture_20250101_120000.jpg'', Jpeg ''frame'')] =
     ([(''capture_20250101_120000.jpg'', Jpeg ''frame'')], [])
   \<and> distinct (map now (filter (\<lambda>a. is_frame (cam a))
        [\<lparr>cam = Frame ''f1'', now = ''20250101_120002''\<rparr>,
         \<lparr>cam = Frame ''f2'', now = ''20250101_120004''\<rparr>]))
   \<and> length (get_pending_files
        (((\<lambda>s. fst (send_pending_files (Some 7) \<lparr>online = False, remote = (\<lambda>c. False)\<rparr> s)) ^^ 3)
           (fst (fold capture_round
              [\<lparr>cam = Frame ''f1'', now = ''20250101_120002''\<rparr>,
               \<lparr>cam = Frame ''f2'', now = ''20250101_120004''\<rparr>] ([], 0))))) = 2"
proof -
  let ?atts = "[\<lparr>cam = Frame ''f1'', now = ''20250101_120002''\<rparr>,
                \<lparr>cam = Frame ''f2'', now = ''20250101_120004''\<rparr>]"
  let ?w = "\<lparr>online = False, remote = (\<lambda>c. False)\<rparr>"
  have d: "distinct (map now (filter (\<lambda>a. is_frame (cam a)) ?atts))"
    by (simp add: is_frame_def)
  have off: "\<forall>c. \<not> remote ?w c" by simp
  have n: "length (filter (\<lambda>a. is_frame (cam a)) ?atts) = 2"
    by (simp add: is_frame_def)
  have one: "send_pending_files None \<lparr>online = True, remote = (\<lambda>c. True)\<rparr>
      [(''capture_20250101_120000.jpg'', Jpeg ''frame'')] =
     ([(''capture_20250101_120000.jpg'', Jpeg ''frame'')], [])"
    using drain_needs_admin_and_sink
      [where admin_id = None and w = "\<lparr>online = True, remote = (\<lambda>c. True)\<rparr>"
         and st = "[(''capture_20250101_120000.jpg'', Jpeg ''frame'')]"]
    by blast
  have two: "length (get_pending_files
        (((\<lambda>s. fst (send_pending_files (Some 7) ?w s)) ^^ 3)
           (fst (fold capture_round ?atts ([], 0))))) =
      length (filter (\<lambda>a. is_frame (cam a)) ?atts)"
    using drain_needs_admin_and_sink
      [where admin_id = "Some 7" and w = ?w and M = 3 and atts = ?atts] off d
    by blast
  from one d two n show ?thesis by simp
qed

subsection \<open>The capture burst at startup\<close>

lemma map_of_write_file: "map_of (write_file st p d) p = Some d"
proof (cases "p \<in> set (names st)")
  case True
  then have "map_of (map (\<lambda>(q, e). if q = p then (q, d) else (q, e)) st) p = Some d"
    unfolding names_def by (induction st) auto
  with True show ?thesis by (simp add: write_file_def)
next
  case False
  then have "map_of st p = None" by (simp add: names_def map_of_eq_None_iff)
  with False show ?thesis by (simp add: write_file_def map_add_def)
qed

lemma filter_jpg_captures:
  "filter is_jpg (map (\<lambda>a. capture_name (now a)) xs) = map (\<lambda>a. capture_name (now a)) xs"
  by (induction xs) (simp_all add: is_jpg_capture_name)

lemma filter_location_captures:
  "filter is_location_json (map (\<lambda>a. capture_name (now a)) xs) = []"
  using not_jpg_and_location is_jpg_capture_name by (induction xs) auto

lemma location_name_not_capture: "location_name ts \<noteq> capture_name t"
  using not_jpg_and_location is_jpg_capture_name is_location_json_location_name by metis

text \<open>
  C7. The burst makes all its \<^verbatim>\<open>STARTUP_CAPTURES\<close> attempts, whatever each of them
  gives: the photo files written and the counter \<^verbatim>\<open>captured\<close> are as many as the
  attempts that read a frame, so a burst of three with one failure writes two photos. Then
  one resolution is made (the external calls of the burst are those of one
  \<^verbatim>\<open>get_location\<close>), and one location file holding its result is written exactly when
  the resolution returned a dictionary. The timestamps of the successful attempts are taken
  to differ from one another (the attempts are two seconds apart and the names have a
  resolution of one second) and the new names to be new in the directory.
\<close>

theorem startup_capture_burst:
  assumes "distinct (map now (filter (\<lambda>a. is_frame (cam a)) (map att [0..<STARTUP_CAPTURES])))"
    and "\<forall>i < STARTUP_CAPTURES. is_frame (cam (att i)) \<longrightarrow>
           capture_name (now (att i)) \<notin> set (names st)"
    and "location_name ts \<notin> set (names st)"
  shows "length (filter is_jpg (names (fst (startup_capture att e ts st)))) =
           length (filter is_jpg (names st))
           + length (filter (\<lambda>i. is_frame (cam (att i))) [0..<STARTUP_CAPTURES])
       \<and> fst (snd (startup_capture att e ts st)) =
           length (filter (\<lambda>i. is_frame (cam (att i))) [0..<STARTUP_CAPTURES])
       \<and> length (filter is_location_json (names (fst (startup_capture att e ts st)))) =
           length (filter is_location_json (names st))
           + (case snd (get_location e) of None \<Rightarrow> 0 | Some info \<Rightarrow> 1)
       \<and> snd (snd (startup_capture att e ts st)) = fst (get_location e)
       \<and> (\<forall>info. snd (get_location e) = Some info \<longrightarrow>
             map_of (fst (startup_capture att e ts st)) (location_name ts) = Some (Json info))"
proof -
  let ?atts = "map att [0..<STARTUP_CAPTURES]"
  let ?ok = "filter (\<lambda>a. is_frame (cam a)) ?atts"
  define r where "r = fold capture_round ?atts (st, 0)"
  define caps where "caps = map (\<lambda>a. capture_name (now a)) ?ok"
  have fresh: "\<forall>a \<in> set ?atts. is_frame (cam a) \<longrightarrow>
      capture_name (now a) \<notin> set (names (fst (st, 0::nat)))"
    using assms(2) by auto
  from capture_loop [OF assms(1) fresh]
  have n1: "names (fst r) = names st @ caps" and c1: "snd r = length caps"
    by (simp_all add: r_def caps_def)
  have lc: "length caps = length (filter (\<lambda>i. is_frame (cam (att i))) [0..<STARTUP_CAPTURES])"
    by (simp add: caps_def filter_map comp_def)
  have fj: "filter is_jpg caps = caps"
    unfolding caps_def by (rule filter_jpg_captures)
  have fl: "filter is_location_json caps = []"
    unfolding caps_def by (rule filter_location_captures)
  have lfresh: "location_name ts \<notin> set (names (fst r))"
    using assms(3) location_name_not_capture by (auto simp: n1 caps_def)
  obtain tr loc where g: "get_location e = (tr, loc)" by (cases "get_location e")
  show ?thesis
  proof (cases loc)
    case None
    then have s: "startup_capture att e ts st = (fst r, snd r, tr)"
      by (simp add: startup_capture_def g r_def split: prod.splits)
    show ?thesis
      unfolding s using None g by (simp add: n1 c1 lc fj fl)
  next
    case (Some info)
    then have s: "startup_capture att e ts st =
        (write_file (fst r) (location_name ts) (Json info), snd r, tr)"
      by (simp add: startup_capture_def g r_def split: prod.splits)
    have n2: "names (write_file (fst r) (location_name ts) (Json info)) =
        names st @ caps @ [location_name ts]"
      using lfresh by (simp add: names_write_file n1)
    have nj: "\<not> is_jpg (location_name ts)"
      using not_jpg_and_location is_location_json_location_name by blast
    show ?thesis
      unfolding s using Some g nj
      by (simp add: n2 c1 lc fj fl is_location_json_location_name map_of_write_file)
  qed
qed

theorem startup_capture_burst_witness:
  "length (filter is_jpg (names (fst (startup_capture
      (\<lambda>i. if i = 0 then \<lparr>cam = Frame ''f0'', now = ''20250101_120002''\<rparr>
           else if i = 1 then \<lparr>cam = CamClosed, now = ''20250101_120004''\<rparr>
           else \<lparr>cam = Frame ''f2'', now = ''20250101_120007''\<rparr>)
      \<lparr>win_out = PsRaised, netsh_out = NetshEmpty, geo_out = GeoRaised,
       ip_out = IpReply \<lparr>d_status = Some ''success'', d_query = None, d_country = None,
                         d_city = Some ''Paris'', d_regionName = None, d_isp = None,
                         d_timezone = None, d_lat = Some 49, d_lon = Some 2\<rparr>\<rparr>
      ''20250101_120030'' [])))) = 2
   \<and> length (filter is_location_json (names (fst (startup_capture
      (\<lambda>i. if i = 0 then \<lparr>cam = Frame ''f0'', now = ''20250101_120002''\<rparr>
           else if i = 1 then \<lparr>cam = CamClosed, now = ''20250101_120004''\<rparr>
           else \<lparr>cam = Frame ''f2'', now = ''20250101_120007''\<rparr>)
      \<lparr>win_out = PsRaised, netsh_out = NetshEmpty, geo_out = GeoRaised,
       ip_out = IpReply \<lparr>d_status = Some ''success'', d_query = None, d_country = None,
                         d_city = Some ''Paris'', d_regionName = None, d_isp = None,
                         d_timezone = None, d_lat = Some 49, d_lon = Some 2\<rparr>\<rparr>
      ''20250101_120030'' [])))) = 1"
proof -
  let ?att = "\<lambda>i::nat. if i = 0 then \<lparr>cam = Frame ''f0'', now = ''20250101_120002''\<rparr>
           else if i = 1 then \<lparr>cam = CamClosed, now = ''20250101_120004''\<rparr>
           else \<lparr>cam = Frame ''f2'', now = ''20250101_120007''\<rparr>"
  let ?e = "\<lparr>win_out = PsRaised, netsh_out = NetshEmpty, geo_out = GeoRaised,
       ip_out = IpReply \<lparr>d_status = Some ''success'', d_query = None, d_country = None,
                         d_city = Some ''Paris'', d_regionName = None, d_isp = None,
                         d_timezone = None, d_lat = Some (49::real), d_lon = Some (2::real)\<rparr>\<rparr>"
  have u: "[0..<STARTUP_CAPTURES] = [0, 1, 2]"
    by (simp add: STARTUP_CAPTURES_def upt_conv_Cons)
  have h1: "distinct (map now (filter (\<lambda>a. is_frame (cam a)) (map ?att [0..<STARTUP_CAPTURES])))"
    unfolding u by (simp add: is_frame_def)
  have h2: "\<forall>i < STARTUP_CAPTURES. is_frame (cam (?att i)) \<longrightarrow>
      capture_name (now (?att i)) \<notin> set (names [])"
    by (simp add: names_def)
  have h3: "location_name ''20250101_120030'' \<notin> set (names [])"
    by (simp add: names_def)
  have k: "length (filter (\<lambda>i. is_frame (cam (?att i))) [0..<STARTUP_CAPTURES]) = 2"
    unfolding u by (simp add: is_frame_def)
  have l: "snd (get_location ?e) \<noteq> None"
    by (simp add: get_location_def get_windows_location_def get_wifi_location_def
          ip_lookup_def)
  from startup_capture_burst [OF h1 h2 h3, of ?e] k l show ?thesis
    by (auto simp: names_def)
qed

end
